theory Spec2Isabelle
  imports Complex_Main
begin

section \<open>Data model (types.ts)\<close>

text \<open>
  JavaScript numbers are IEEE-754 doubles. The definitions come in two forms. The plain
  ones (\<open>processDetections\<close>, \<open>gesture_effect\<close>) compute with exact reals: sums,
  quotients, squares and square roots are the mathematical ones. They serve the properties
  that rounding does not touch. The ones ending in \<open>_fp\<close> are the same code with every
  arithmetic operation taken from a parameter; instantiated with \<open>exact\<close> they are the
  plain ones, instantiated with \<open>ieee\<close> they round every result to the nearest double.
  Values are the real numbers the doubles denote: there is no NaN and no infinity (no
  operation on landmarks in the unit square or on a random number below 1 overflows).
  Landmarks carry a z coordinate that the classifier never reads; it is left out.
\<close>

datatype AppMode = TREE | SCATTER | ZOOM

datatype Gesture = Closed_Fist | Open_Palm | Pinch | NoGesture

record Landmark =
  lx :: real
  ly :: real

record Position =
  px :: real
  py :: real

record GestureState =
  isHandDetected :: bool
  gesture :: Gesture
  handPosition :: Position

text \<open>Reading a property of \<open>undefined\<close> throws a TypeError, the only exception the
  modelled code raises by itself; \<open>DetectionError\<close> stands for whatever the landmark
  provider throws.\<close>

datatype error = TypeError | DetectionError

section \<open>Gesture classifier (GestureService.processDetections)\<close>

text \<open>\<open>xs[i]\<close> in JavaScript: \<open>undefined\<close> (here \<open>None\<close>) outside the array.\<close>

definition elem_at :: "'a list \<Rightarrow> nat \<Rightarrow> 'a option" where
  "elem_at xs i = (if i < length xs then Some (xs ! i) else None)"

definition bind_r :: "error + 'a \<Rightarrow> ('a \<Rightarrow> error + 'b) \<Rightarrow> error + 'b" where
  "bind_r m f = (case m of Inl e \<Rightarrow> Inl e | Inr v \<Rightarrow> f v)"

text \<open>\<open>a && b\<close> where both operands may throw: the right operand is evaluated only
  when the left one is true.\<close>

definition andalso :: "error + bool \<Rightarrow> error + bool \<Rightarrow> error + bool" where
  "andalso a b = bind_r a (\<lambda>v. if v then b else Inr False)"

text \<open>The distance helper: \<open>Math.sqrt(Math.pow(p1.x - p2.x, 2) + Math.pow(p1.y - p2.y, 2))\<close>.
  Either point may be \<open>undefined\<close>, and then reading its \<open>x\<close> throws.\<close>

definition dist_pts :: "Landmark option \<Rightarrow> Landmark option \<Rightarrow> error + real" where
  "dist_pts p1 p2 =
     (case p1 of
        None \<Rightarrow> Inl TypeError
      | Some a \<Rightarrow>
          (case p2 of
             None \<Rightarrow> Inl TypeError
           | Some b \<Rightarrow> Inr (sqrt ((lx a - lx b)\<^sup>2 + (ly a - ly b)\<^sup>2))))"

definition dist_lt :: "Landmark option \<Rightarrow> Landmark option \<Rightarrow> real \<Rightarrow> error + bool" where
  "dist_lt p1 p2 c = bind_r (dist_pts p1 p2) (\<lambda>d. Inr (d < c))"

definition dist_gt :: "Landmark option \<Rightarrow> Landmark option \<Rightarrow> real \<Rightarrow> error + bool" where
  "dist_gt p1 p2 c = bind_r (dist_pts p1 p2) (\<lambda>d. Inr (d > c))"

text \<open>The \<open>forEach\<close> that accumulates \<open>xSum\<close> and \<open>ySum\<close>.\<close>

definition coord_sums :: "Landmark list \<Rightarrow> real \<times> real" where
  "coord_sums landmarks = fold (\<lambda>l (xSum, ySum). (xSum + lx l, ySum + ly l)) landmarks (0, 0)"

definition no_hand :: GestureState where
  "no_hand = \<lparr>isHandDetected = False, gesture = NoGesture,
              handPosition = \<lparr>px = 0.5, py = 0.5\<rparr>\<rparr>"

text \<open>
  The argument is \<open>result.landmarks\<close>: \<open>None\<close> when the property is missing or null,
  otherwise the array of detected hands, each an array of landmarks. The value returned is
  the state handed to \<open>onResult\<close>; \<open>Inl\<close> means that the method threw before calling it.
\<close>

definition processDetections :: "Landmark list list option \<Rightarrow> error + GestureState" where
  "processDetections result =
     (case result of
        None \<Rightarrow> Inr no_hand
      | Some [] \<Rightarrow> Inr no_hand
      | Some (landmarks # _) \<Rightarrow>
          (let (xSum, ySum) = coord_sums landmarks;
               handX = xSum / real (length landmarks);
               handY = ySum / real (length landmarks);
               thumbTip = elem_at landmarks 4;
               indexTip = elem_at landmarks 8;
               middleTip = elem_at landmarks 12;
               ringTip = elem_at landmarks 16;
               pinkyTip = elem_at landmarks 20;
               wrist = elem_at landmarks 0
           in bind_r (dist_pts thumbTip indexTip) (\<lambda>pinchDist.
              bind_r (andalso (dist_lt indexTip wrist 0.2)
                     (andalso (dist_lt middleTip wrist 0.2)
                     (andalso (dist_lt ringTip wrist 0.2)
                              (dist_lt pinkyTip wrist 0.2)))) (\<lambda>isFist.
              bind_r (andalso (dist_gt indexTip wrist 0.3)
                     (andalso (dist_gt middleTip wrist 0.3)
                     (andalso (dist_gt ringTip wrist 0.3)
                              (dist_gt pinkyTip wrist 0.3)))) (\<lambda>isOpen.
              Inr \<lparr>isHandDetected = True,
                   gesture = (if isFist then Closed_Fist
                              else if pinchDist < 0.08 then Pinch
                              else if isOpen then Open_Palm
                              else NoGesture),
                   handPosition = \<lparr>px = 1 - handX, py = handY\<rparr>\<rparr>)))))"

subsection \<open>The classifier as the specification words it\<close>

definition euclid :: "Landmark \<Rightarrow> Landmark \<Rightarrow> real" where
  "euclid p q = sqrt ((lx p - lx q)\<^sup>2 + (ly p - ly q)\<^sup>2)"

definition mean :: "real list \<Rightarrow> real" where
  "mean vs = sum_list vs / real (length vs)"

definition spec_fist :: "Landmark list \<Rightarrow> bool" where
  "spec_fist h \<longleftrightarrow> euclid (h ! 8) (h ! 0) < 0.20 \<and> euclid (h ! 12) (h ! 0) < 0.20 \<and>
     euclid (h ! 16) (h ! 0) < 0.20 \<and> euclid (h ! 20) (h ! 0) < 0.20"

definition spec_pinch :: "Landmark list \<Rightarrow> bool" where
  "spec_pinch h \<longleftrightarrow> euclid (h ! 4) (h ! 8) < 0.08"

definition spec_open :: "Landmark list \<Rightarrow> bool" where
  "spec_open h \<longleftrightarrow> euclid (h ! 8) (h ! 0) > 0.30 \<and> euclid (h ! 12) (h ! 0) > 0.30 \<and>
     euclid (h ! 16) (h ! 0) > 0.30 \<and> euclid (h ! 20) (h ! 0) > 0.30"

definition spec_gesture :: "Landmark list \<Rightarrow> Gesture" where
  "spec_gesture h =
     (if spec_fist h then Closed_Fist
      else if spec_pinch h then Pinch
      else if spec_open h then Open_Palm
      else NoGesture)"

definition classify :: "Landmark list option \<Rightarrow> GestureState" where
  "classify hand =
     (case hand of
        None \<Rightarrow> \<lparr>isHandDetected = False, gesture = NoGesture,
                  handPosition = \<lparr>px = 0.5, py = 0.5\<rparr>\<rparr>
      | Some h \<Rightarrow> \<lparr>isHandDetected = True, gesture = spec_gesture h,
                   handPosition = \<lparr>px = 1 - mean (map lx h), py = mean (map ly h)\<rparr>\<rparr>)"

section \<open>Double arithmetic\<close>

text \<open>Rounding to the nearest integer, ties to the even one.\<close>

definition round_even :: "real \<Rightarrow> int" where
  "round_even y =
     (let f = \<lfloor>y\<rfloor>
      in if y - of_int f < 1/2 then f
         else if 1/2 < y - of_int f then f + 1
         else if even f then f else f + 1)"

text \<open>
  The binary exponent of a number, and the spacing of the doubles around it: 53
  significant bits, and below \<open>2^-1022\<close> the fixed spacing \<open>2^-1074\<close> of the subnormal
  numbers. \<open>rnd x\<close> is the double nearest to \<open>x\<close>, ties to the even significand;
  the largest finite double is not modelled.
\<close>

definition expo :: "real \<Rightarrow> int" where
  "expo x = \<lfloor>log 2 \<bar>x\<bar>\<rfloor>"

definition quantum :: "real \<Rightarrow> real" where
  "quantum x = 2 powr of_int (max (expo x) (- 1022) - 52)"

definition rnd :: "real \<Rightarrow> real" where
  "rnd x = (if x = 0 then 0 else of_int (round_even (x / quantum x)) * quantum x)"

text \<open>
  The operations the code uses: \<open>+\<close>, \<open>-\<close>, \<open>*\<close>, \<open>/\<close>,
  \<open>Math.sqrt\<close>, \<open>Math.pow(x, 2)\<close>, and the double that a decimal literal of the
  program text denotes. The literals \<open>0.5\<close>, \<open>1\<close> and \<open>2\<close> and the array
  lengths are doubles themselves and are used as they are.
\<close>

record arith =
  fadd :: "real \<Rightarrow> real \<Rightarrow> real"
  fsub :: "real \<Rightarrow> real \<Rightarrow> real"
  fmul :: "real \<Rightarrow> real \<Rightarrow> real"
  fdiv :: "real \<Rightarrow> real \<Rightarrow> real"
  fsqrt :: "real \<Rightarrow> real"
  fpow2 :: "real \<Rightarrow> real"
  flit :: "real \<Rightarrow> real"

text \<open>
  The arithmetic of a JavaScript engine: every operation returns the double nearest to
  the exact result. The language fixes this for the four basic operations; for
  \<open>Math.sqrt\<close> and \<open>Math.pow(x, 2)\<close> it is what the engines in use compute.
\<close>

definition ieee :: arith where
  "ieee =
     \<lparr>fadd = (\<lambda>a b. rnd (a + b)), fsub = (\<lambda>a b. rnd (a - b)),
      fmul = (\<lambda>a b. rnd (a * b)), fdiv = (\<lambda>a b. rnd (a / b)),
      fsqrt = (\<lambda>a. rnd (sqrt a)), fpow2 = (\<lambda>a. rnd (a * a)), flit = rnd\<rparr>"

text \<open>The arithmetic of the plain definitions.\<close>

definition exact :: arith where
  "exact =
     \<lparr>fadd = (\<lambda>a b. a + b), fsub = (\<lambda>a b. a - b), fmul = (\<lambda>a b. a * b),
      fdiv = (\<lambda>a b. a / b), fsqrt = sqrt, fpow2 = (\<lambda>a. a\<^sup>2), flit = (\<lambda>a. a)\<rparr>"

subsection \<open>The classifier with its arithmetic explicit\<close>

text \<open>\<open>processDetections\<close> again, line by line, with the operations of \<open>ar\<close>.\<close>

definition dist_fp :: "arith \<Rightarrow> Landmark option \<Rightarrow> Landmark option \<Rightarrow> error + real" where
  "dist_fp ar p1 p2 =
     (case p1 of
        None \<Rightarrow> Inl TypeError
      | Some a \<Rightarrow>
          (case p2 of
             None \<Rightarrow> Inl TypeError
           | Some b \<Rightarrow>
               Inr (fsqrt ar (fadd ar (fpow2 ar (fsub ar (lx a) (lx b)))
                                     (fpow2 ar (fsub ar (ly a) (ly b)))))))"

definition dist_lt_fp ::
  "arith \<Rightarrow> Landmark option \<Rightarrow> Landmark option \<Rightarrow> real \<Rightarrow> error + bool" where
  "dist_lt_fp ar p1 p2 c = bind_r (dist_fp ar p1 p2) (\<lambda>d. Inr (d < c))"

definition dist_gt_fp ::
  "arith \<Rightarrow> Landmark option \<Rightarrow> Landmark option \<Rightarrow> real \<Rightarrow> error + bool" where
  "dist_gt_fp ar p1 p2 c = bind_r (dist_fp ar p1 p2) (\<lambda>d. Inr (d > c))"

definition coord_sums_fp :: "arith \<Rightarrow> Landmark list \<Rightarrow> real \<times> real" where
  "coord_sums_fp ar landmarks =
     fold (\<lambda>l (xSum, ySum). (fadd ar xSum (lx l), fadd ar ySum (ly l))) landmarks (0, 0)"

definition processDetections_fp ::
  "arith \<Rightarrow> Landmark list list option \<Rightarrow> error + GestureState" where
  "processDetections_fp ar result =
     (case result of
        None \<Rightarrow> Inr no_hand
      | Some [] \<Rightarrow> Inr no_hand
      | Some (landmarks # _) \<Rightarrow>
          (let (xSum, ySum) = coord_sums_fp ar landmarks;
               handX = fdiv ar xSum (real (length landmarks));
               handY = fdiv ar ySum (real (length landmarks));
               thumbTip = elem_at landmarks 4;
               indexTip = elem_at landmarks 8;
               middleTip = elem_at landmarks 12;
               ringTip = elem_at landmarks 16;
               pinkyTip = elem_at landmarks 20;
               wrist = elem_at landmarks 0
           in bind_r (dist_fp ar thumbTip indexTip) (\<lambda>pinchDist.
              bind_r (andalso (dist_lt_fp ar indexTip wrist (flit ar 0.2))
                     (andalso (dist_lt_fp ar middleTip wrist (flit ar 0.2))
                     (andalso (dist_lt_fp ar ringTip wrist (flit ar 0.2))
                              (dist_lt_fp ar pinkyTip wrist (flit ar 0.2))))) (\<lambda>isFist.
              bind_r (andalso (dist_gt_fp ar indexTip wrist (flit ar 0.3))
                     (andalso (dist_gt_fp ar middleTip wrist (flit ar 0.3))
                     (andalso (dist_gt_fp ar ringTip wrist (flit ar 0.3))
                              (dist_gt_fp ar pinkyTip wrist (flit ar 0.3))))) (\<lambda>isOpen.
              Inr \<lparr>isHandDetected = True,
                   gesture = (if isFist then Closed_Fist
                              else if pinchDist < flit ar 0.08 then Pinch
                              else if isOpen then Open_Palm
                              else NoGesture),
                   handPosition = \<lparr>px = fsub ar 1 handX, py = handY\<rparr>\<rparr>)))))"

subsection \<open>The classifier in words, computed in the arithmetic of the code\<close>

text \<open>
  The distance as the code computes it; the mean as the sum accumulated in index order
  from 0 and divided by the count; the thresholds as the doubles the literals denote.
\<close>

definition euclid_fp :: "arith \<Rightarrow> Landmark \<Rightarrow> Landmark \<Rightarrow> real" where
  "euclid_fp ar p q =
     fsqrt ar (fadd ar (fpow2 ar (fsub ar (lx p) (lx q))) (fpow2 ar (fsub ar (ly p) (ly q))))"

definition mean_fp :: "arith \<Rightarrow> real list \<Rightarrow> real" where
  "mean_fp ar vs = fdiv ar (foldl (fadd ar) 0 vs) (real (length vs))"

definition fist_fp :: "arith \<Rightarrow> Landmark list \<Rightarrow> bool" where
  "fist_fp ar h \<longleftrightarrow>
     euclid_fp ar (h ! 8) (h ! 0) < flit ar 0.20 \<and> euclid_fp ar (h ! 12) (h ! 0) < flit ar 0.20 \<and>
     euclid_fp ar (h ! 16) (h ! 0) < flit ar 0.20 \<and> euclid_fp ar (h ! 20) (h ! 0) < flit ar 0.20"

definition pinch_fp :: "arith \<Rightarrow> Landmark list \<Rightarrow> bool" where
  "pinch_fp ar h \<longleftrightarrow> euclid_fp ar (h ! 4) (h ! 8) < flit ar 0.08"

definition open_fp :: "arith \<Rightarrow> Landmark list \<Rightarrow> bool" where
  "open_fp ar h \<longleftrightarrow>
     euclid_fp ar (h ! 8) (h ! 0) > flit ar 0.30 \<and> euclid_fp ar (h ! 12) (h ! 0) > flit ar 0.30 \<and>
     euclid_fp ar (h ! 16) (h ! 0) > flit ar 0.30 \<and> euclid_fp ar (h ! 20) (h ! 0) > flit ar 0.30"

definition gesture_fp :: "arith \<Rightarrow> Landmark list \<Rightarrow> Gesture" where
  "gesture_fp ar h =
     (if fist_fp ar h then Closed_Fist
      else if pinch_fp ar h then Pinch
      else if open_fp ar h then Open_Palm
      else NoGesture)"

definition classify_fp :: "arith \<Rightarrow> Landmark list option \<Rightarrow> GestureState" where
  "classify_fp ar hand =
     (case hand of
        None \<Rightarrow> \<lparr>isHandDetected = False, gesture = NoGesture,
                  handPosition = \<lparr>px = 0.5, py = 0.5\<rparr>\<rparr>
      | Some h \<Rightarrow> \<lparr>isHandDetected = True, gesture = gesture_fp ar h,
                   handPosition = \<lparr>px = fsub ar 1 (mean_fp ar (map lx h)),
                                   py = mean_fp ar (map ly h)\<rparr>\<rparr>)"

section \<open>Gesture service (GestureService: start, stop, loop)\<close>

text \<open>
  The video element is owned by the page and changes between ticks, so the service keeps
  a reference (a number) and every tick reads the element's current properties from the
  environment. \<open>handLandmarker\<close> is \<open>True\<close> once \<open>initialize\<close> has
  stored the loaded model.
\<close>

record HTMLVideoElement =
  readyState :: nat
  videoWidth :: nat
  videoHeight :: nat
  currentTime :: real

record GestureService =
  handLandmarker :: bool
  video :: "nat option"
  lastVideoTime :: real
  requestRef :: "nat option"

text \<open>
  What a call can observe outside the service: the video elements, and what
  \<open>detectForVideo\<close> does if it is called now (it throws, or returns a result whose
  \<open>landmarks\<close> property is the value given).
\<close>

record env =
  element :: "nat \<Rightarrow> HTMLVideoElement"
  detectForVideo :: "error + Landmark list list option"

text \<open>
  The service together with what it acts on: the browser's list of animation-frame
  callbacks that were requested and have neither run nor been cancelled (every one of them
  is \<open>this.loop\<close>, so only the handles are kept), the next handle the browser hands out,
  the arguments of the calls of \<open>onResult\<close> so far (oldest first), and counters for the
  provider calls, the calls of \<open>processDetections\<close> and the warnings logged.
\<close>

record world =
  service :: GestureService
  pending :: "nat list"
  nextHandle :: nat
  published :: "GestureState list"
  detectCalls :: nat
  classifyCalls :: nat
  warnings :: nat

definition new_GestureService :: GestureService where
  "new_GestureService =
     \<lparr>handLandmarker = False, video = None, lastVideoTime = - 1, requestRef = None\<rparr>"

text \<open>A page that has just constructed the service. Animation-frame handles start at 1.\<close>

definition new_world :: world where
  "new_world =
     \<lparr>service = new_GestureService, pending = [], nextHandle = 1, published = [],
      detectCalls = 0, classifyCalls = 0, warnings = 0\<rparr>"

definition requestAnimationFrame :: "world \<Rightarrow> nat \<times> world" where
  "requestAnimationFrame w =
     (nextHandle w, w\<lparr>pending := pending w @ [nextHandle w], nextHandle := Suc (nextHandle w)\<rparr>)"

definition cancelAnimationFrame :: "nat \<Rightarrow> world \<Rightarrow> world" where
  "cancelAnimationFrame h w = w\<lparr>pending := removeAll h (pending w)\<rparr>"

definition console_warn :: "world \<Rightarrow> world" where
  "console_warn w = w\<lparr>warnings := Suc (warnings w)\<rparr>"

text \<open>The body of the \<open>try\<close> with its \<open>catch\<close>.\<close>

definition try_detect :: "env \<Rightarrow> world \<Rightarrow> world" where
  "try_detect e w =
     (let w1 = w\<lparr>detectCalls := Suc (detectCalls w)\<rparr>
      in case detectForVideo e of
           Inl err \<Rightarrow> console_warn w1
         | Inr detections \<Rightarrow>
             (let w2 = w1\<lparr>classifyCalls := Suc (classifyCalls w1)\<rparr>
              in case processDetections detections of
                   Inl err \<Rightarrow> console_warn w2
                 | Inr state \<Rightarrow> w2\<lparr>published := published w2 @ [state]\<rparr>))"

definition loop :: "env \<Rightarrow> world \<Rightarrow> world" where
  "loop e w =
     (let s = service w;
          w1 = (case video s of
                  None \<Rightarrow> w
                | Some v \<Rightarrow>
                    if handLandmarker s then
                      (if readyState (element e v) \<ge> 2 \<and>
                          videoWidth (element e v) > 0 \<and>
                          videoHeight (element e v) > 0 \<and>
                          currentTime (element e v) \<noteq> lastVideoTime s
                       then try_detect e
                              (w\<lparr>service := s\<lparr>lastVideoTime := currentTime (element e v)\<rparr>\<rparr>)
                       else w)
                    else w);
          (h, w2) = requestAnimationFrame w1
      in w2\<lparr>service := (service w2)\<lparr>requestRef := Some h\<rparr>\<rparr>)"

definition initialize :: "world \<Rightarrow> world" where
  "initialize w = w\<lparr>service := (service w)\<lparr>handLandmarker := True\<rparr>\<rparr>"

definition start :: "nat \<Rightarrow> env \<Rightarrow> world \<Rightarrow> world" where
  "start videoElement e w = loop e (w\<lparr>service := (service w)\<lparr>video := Some videoElement\<rparr>\<rparr>)"

text \<open>\<open>if (this.requestRef)\<close> is false for \<open>null\<close> and for the number 0.\<close>

definition stop :: "world \<Rightarrow> world" where
  "stop w =
     (case requestRef (service w) of
        None \<Rightarrow> w
      | Some r \<Rightarrow> if r \<noteq> 0 then cancelAnimationFrame r w else w)"

text \<open>One display refresh: the browser takes the callbacks requested so far and runs
  them in order; what they request goes to the next refresh.\<close>

definition animationFrame :: "env \<Rightarrow> world \<Rightarrow> world" where
  "animationFrame e w = fold (\<lambda>h. loop e) (pending w) (w\<lparr>pending := []\<rparr>)"

datatype event = Initialize | Start nat env | Stop | AnimationFrame env

fun step :: "event \<Rightarrow> world \<Rightarrow> world" where
  "step Initialize w = initialize w"
| "step (Start v e) w = start v e w"
| "step Stop w = stop w"
| "step (AnimationFrame e) w = animationFrame e w"

definition run :: "event list \<Rightarrow> world \<Rightarrow> world" where
  "run evs w = fold step evs w"

fun is_Start :: "event \<Rightarrow> bool" where
  "is_Start (Start v e) = True"
| "is_Start _ = False"

text \<open>The guard of \<open>loop\<close> read on its own: the tick calls the provider.\<close>

definition accepted :: "env \<Rightarrow> world \<Rightarrow> bool" where
  "accepted e w =
     (case video (service w) of
        None \<Rightarrow> False
      | Some v \<Rightarrow>
          handLandmarker (service w) \<and> readyState (element e v) \<ge> 2 \<and>
          videoWidth (element e v) > 0 \<and> videoHeight (element e v) > 0 \<and>
          currentTime (element e v) \<noteq> lastVideoTime (service w))"

section \<open>Application state (App: mode state machine and photo upload)\<close>

record PhotoData =
  photoId :: string
  url :: string
  position :: "real \<times> real \<times> real"
  scatterPosition :: "real \<times> real \<times> real"
  rotation :: "real \<times> real \<times> real"

record App =
  mode :: AppMode
  photos :: "PhotoData list"
  selectedPhotoId :: "string option"
  gestureState :: GestureState

definition initial_App :: App where
  "initial_App =
     \<lparr>mode = TREE, photos = [], selectedPhotoId = None,
      gestureState = \<lparr>isHandDetected = False, gesture = NoGesture,
                      handPosition = \<lparr>px = 0.5, py = 0.5\<rparr>\<rparr>\<rparr>"

definition setGestureState :: "GestureState \<Rightarrow> App \<Rightarrow> App" where
  "setGestureState g s = s\<lparr>gestureState := g\<rparr>"

text \<open>\<open>!selectedPhotoId\<close> is true for \<open>null\<close> and for the empty string.\<close>

definition falsy :: "string option \<Rightarrow> bool" where
  "falsy i \<longleftrightarrow> i = None \<or> i = Some []"

text \<open>\<open>photos[randomIdx]\<close> for an integral index of either sign.\<close>

definition elem_at_int :: "'a list \<Rightarrow> int \<Rightarrow> 'a option" where
  "elem_at_int xs i = (if 0 \<le> i then elem_at xs (nat i) else None)"

text \<open>
  One run of the transition effect on the current state. \<open>random\<close> is the value
  \<open>Math.random()\<close> returns if it is called. The two setters of a branch take effect
  together; \<open>photos[randomIdx].id\<close> throws when the index is outside the array.
\<close>

definition gesture_effect :: "real \<Rightarrow> App \<Rightarrow> error + App" where
  "gesture_effect random s =
     (if \<not> isHandDetected (gestureState s) then
        (if mode s \<noteq> TREE then Inr (s\<lparr>mode := TREE, selectedPhotoId := None\<rparr>) else Inr s)
      else if gesture (gestureState s) = Closed_Fist \<and> mode s \<noteq> TREE then
        Inr (s\<lparr>mode := TREE, selectedPhotoId := None\<rparr>)
      else if gesture (gestureState s) = Open_Palm then
        (if mode s = TREE then Inr (s\<lparr>mode := SCATTER\<rparr>) else Inr s)
      else if gesture (gestureState s) = Pinch then
        (if mode s \<noteq> ZOOM \<and> length (photos s) > 0 then
           (if falsy (selectedPhotoId s) then
              (let randomIdx = \<lfloor>random * real (length (photos s))\<rfloor>
               in case elem_at_int (photos s) randomIdx of
                    None \<Rightarrow> Inl TypeError
                  | Some p \<Rightarrow> Inr (s\<lparr>mode := ZOOM, selectedPhotoId := Some (photoId p)\<rparr>))
            else Inr (s\<lparr>mode := ZOOM\<rparr>))
         else Inr s)
      else Inr s)"

text \<open>The same effect with the product \<open>Math.random() * photos.length\<close> computed in
  the arithmetic \<open>ar\<close>.\<close>

definition gesture_effect_fp :: "arith \<Rightarrow> real \<Rightarrow> App \<Rightarrow> error + App" where
  "gesture_effect_fp ar random s =
     (if \<not> isHandDetected (gestureState s) then
        (if mode s \<noteq> TREE then Inr (s\<lparr>mode := TREE, selectedPhotoId := None\<rparr>) else Inr s)
      else if gesture (gestureState s) = Closed_Fist \<and> mode s \<noteq> TREE then
        Inr (s\<lparr>mode := TREE, selectedPhotoId := None\<rparr>)
      else if gesture (gestureState s) = Open_Palm then
        (if mode s = TREE then Inr (s\<lparr>mode := SCATTER\<rparr>) else Inr s)
      else if gesture (gestureState s) = Pinch then
        (if mode s \<noteq> ZOOM \<and> length (photos s) > 0 then
           (if falsy (selectedPhotoId s) then
              (let randomIdx = \<lfloor>fmul ar random (real (length (photos s)))\<rfloor>
               in case elem_at_int (photos s) randomIdx of
                    None \<Rightarrow> Inl TypeError
                  | Some p \<Rightarrow> Inr (s\<lparr>mode := ZOOM, selectedPhotoId := Some (photoId p)\<rparr>))
            else Inr (s\<lparr>mode := ZOOM\<rparr>))
         else Inr s)
      else Inr s)"

text \<open>What the upload handler draws for one file: the UUID, the object URL and the eight
  values of \<open>Math.random()\<close>, in the order of the calls.\<close>

record File_src =
  uuidv4 :: string
  createObjectURL :: string
  random_h :: real
  random_theta :: real
  random_sx :: real
  random_sy :: real
  random_sz :: real
  random_rx :: real
  random_ry :: real
  random_rz :: real

definition make_photo :: "File_src \<Rightarrow> PhotoData" where
  "make_photo f =
     (let h = (random_h f - 0.5) * 15;
          hNorm = (h + 10) / 20;
          r = (1 - hNorm) * 6;
          theta = random_theta f * pi * 2
      in \<lparr>photoId = uuidv4 f, url = createObjectURL f,
          position = (r * cos theta, h, r * sin theta),
          scatterPosition =
            ((random_sx f - 0.5) * 20, (random_sy f - 0.5) * 20, (random_sz f - 0.5) * 20),
          rotation = (random_rx f, random_ry f, random_rz f)\<rparr>)"

text \<open>\<open>e.target.files\<close> may be null, and then nothing happens.\<close>

definition handleFileUpload :: "File_src list option \<Rightarrow> App \<Rightarrow> App" where
  "handleFileUpload files s =
     (case files of
        None \<Rightarrow> s
      | Some fs \<Rightarrow> s\<lparr>photos := photos s @ map make_photo fs\<rparr>)"

text \<open>
  The updates the application receives. A new gesture state or a new photo array changes
  a dependency of the transition effect, so the effect runs after either; the number is
  what \<open>Math.random()\<close> would return in that run.
\<close>

datatype app_event =
  NewGesture GestureState real
| Upload "File_src list option" real

fun event_random :: "app_event \<Rightarrow> real" where
  "event_random (NewGesture g r) = r"
| "event_random (Upload files r) = r"

fun app_step :: "app_event \<Rightarrow> App \<Rightarrow> error + App" where
  "app_step (NewGesture g r) s = gesture_effect r (setGestureState g s)"
| "app_step (Upload files r) s = gesture_effect r (handleFileUpload files s)"

fun app_run :: "app_event list \<Rightarrow> App \<Rightarrow> error + App" where
  "app_run [] s = Inr s"
| "app_run (ev # evs) s = bind_r (app_step ev s) (app_run evs)"

text \<open>The selected photo reference is set only in Zoom, and then names a photo held.\<close>

definition app_inv :: "App \<Rightarrow> bool" where
  "app_inv s =
     (case selectedPhotoId s of
        None \<Rightarrow> True
      | Some i \<Rightarrow> mode s = ZOOM \<and> i \<in> set (map photoId (photos s)))"

subsection \<open>The transition rules as the specification words them\<close>

definition rule1 :: "GestureState \<Rightarrow> App \<Rightarrow> bool" where
  "rule1 g s \<longleftrightarrow> \<not> isHandDetected g \<and> mode s \<noteq> TREE"

definition rule2 :: "GestureState \<Rightarrow> App \<Rightarrow> bool" where
  "rule2 g s \<longleftrightarrow> gesture g = Closed_Fist \<and> mode s \<noteq> TREE"

definition rule3 :: "GestureState \<Rightarrow> App \<Rightarrow> bool" where
  "rule3 g s \<longleftrightarrow> gesture g = Open_Palm \<and> mode s = TREE"

definition rule4 :: "GestureState \<Rightarrow> App \<Rightarrow> bool" where
  "rule4 g s \<longleftrightarrow> gesture g = Pinch \<and> mode s \<noteq> ZOOM \<and> length (photos s) > 0"

section \<open>Auxiliary notions for the statements\<close>

text \<open>The squared distance, against which the thresholds are evaluated on concrete poses.\<close>

definition sqd :: "Landmark \<Rightarrow> Landmark \<Rightarrow> real" where
  "sqd p q = (lx p - lx q)\<^sup>2 + (ly p - ly q)\<^sup>2"



text \<open>An open palm: the wrist low in the image, every other keypoint on one spot far
  above it, and the thumb tip moved away from the index tip.\<close>

definition open_pose :: "Landmark list" where
  "open_pose = (replicate 21 \<lparr>lx = 1/2, ly = 2/5\<rparr>)
                 [0 := \<lparr>lx = 1/2, ly = 9/10\<rparr>, 4 := \<lparr>lx = 1/5, ly = 1/2\<rparr>]"

subsection \<open>Doubles and poses on which rounding shows\<close>

text \<open>
  The doubles nearest to 0.2 and 0.08 (the first lies above 1/5), the double nearest to
  the square of the first, a small double, the double nearest to 1/21, and the double
  just below 2/3.
\<close>

definition d02 :: real where "d02 = 7205759403792794 / 2 ^ 55"

definition d008 :: real where "d008 = 5764607523034235 / 2 ^ 56"

definition d02sq :: real where "d02sq = 5764607523034236 / 2 ^ 57"

definition tiny :: real where "tiny = 15 / 2 ^ 60"

definition d_1_21 :: real where "d_1_21 = 6862628003612184 / 2 ^ 57"


text \<open>All keypoints in the origin except one at \<open>(0, 1)\<close>: the mean of the y
  coordinates is 1/21, which is not a double.\<close>

definition mean_pose :: "Landmark list" where
  "mean_pose =
     [\<lparr>lx = 0, ly = 0\<rparr>, \<lparr>lx = 0, ly = 1\<rparr>, \<lparr>lx = 0, ly = 0\<rparr>, \<lparr>lx = 0, ly = 0\<rparr>,
      \<lparr>lx = 0, ly = 0\<rparr>, \<lparr>lx = 0, ly = 0\<rparr>, \<lparr>lx = 0, ly = 0\<rparr>, \<lparr>lx = 0, ly = 0\<rparr>,
      \<lparr>lx = 0, ly = 0\<rparr>, \<lparr>lx = 0, ly = 0\<rparr>, \<lparr>lx = 0, ly = 0\<rparr>, \<lparr>lx = 0, ly = 0\<rparr>,
      \<lparr>lx = 0, ly = 0\<rparr>, \<lparr>lx = 0, ly = 0\<rparr>, \<lparr>lx = 0, ly = 0\<rparr>, \<lparr>lx = 0, ly = 0\<rparr>,
      \<lparr>lx = 0, ly = 0\<rparr>, \<lparr>lx = 0, ly = 0\<rparr>, \<lparr>lx = 0, ly = 0\<rparr>, \<lparr>lx = 0, ly = 0\<rparr>,
      \<lparr>lx = 0, ly = 0\<rparr>]"

text \<open>
  The wrist at \<open>x = 15 * 2^-60\<close> and every other keypoint at \<open>x = d02\<close>, all at
  the same height: each fingertip is at distance \<open>d02 - 15 * 2^-60\<close> from the wrist,
  which is less than 1/5, and the thumb tip is on the index tip.
\<close>

definition edge_pose :: "Landmark list" where
  "edge_pose =
     [\<lparr>lx = tiny, ly = 1/2\<rparr>, \<lparr>lx = d02, ly = 1/2\<rparr>, \<lparr>lx = d02, ly = 1/2\<rparr>,
      \<lparr>lx = d02, ly = 1/2\<rparr>, \<lparr>lx = d02, ly = 1/2\<rparr>, \<lparr>lx = d02, ly = 1/2\<rparr>,
      \<lparr>lx = d02, ly = 1/2\<rparr>, \<lparr>lx = d02, ly = 1/2\<rparr>, \<lparr>lx = d02, ly = 1/2\<rparr>,
      \<lparr>lx = d02, ly = 1/2\<rparr>, \<lparr>lx = d02, ly = 1/2\<rparr>, \<lparr>lx = d02, ly = 1/2\<rparr>,
      \<lparr>lx = d02, ly = 1/2\<rparr>, \<lparr>lx = d02, ly = 1/2\<rparr>, \<lparr>lx = d02, ly = 1/2\<rparr>,
      \<lparr>lx = d02, ly = 1/2\<rparr>, \<lparr>lx = d02, ly = 1/2\<rparr>, \<lparr>lx = d02, ly = 1/2\<rparr>,
      \<lparr>lx = d02, ly = 1/2\<rparr>, \<lparr>lx = d02, ly = 1/2\<rparr>, \<lparr>lx = d02, ly = 1/2\<rparr>]"

subsection \<open>Service\<close>

text \<open>The video has a decoded frame: the first three conjuncts of the guard of \<open>loop\<close>.\<close>

definition frame_ready :: "HTMLVideoElement \<Rightarrow> bool" where
  "frame_ready el \<longleftrightarrow> readyState el \<ge> 2 \<and> videoWidth el > 0 \<and> videoHeight el > 0"

text \<open>An environment \<open>e\<close> in which video \<open>v\<close> offers nothing new with respect to
  the marker \<open>t\<close>: if it has a decoded frame at all, its playback time is \<open>t\<close>.\<close>

definition quiet_for :: "nat \<Rightarrow> real \<Rightarrow> env \<Rightarrow> bool" where
  "quiet_for v t e \<longleftrightarrow> (frame_ready (element e v) \<longrightarrow> currentTime (element e v) = t)"

text \<open>At most one loop callback is pending, and it is the one \<open>requestRef\<close> names.\<close>

definition single_loop :: "world \<Rightarrow> bool" where
  "single_loop w \<longleftrightarrow>
     0 < nextHandle w \<and>
     (case pending w of
        [] \<Rightarrow> True
      | [h] \<Rightarrow> requestRef (service w) = Some h \<and> h \<noteq> 0
      | _ \<Rightarrow> False)"

text \<open>Sample environments: a video with no decoded frame yet; a decoded frame at playback
  time \<open>t\<close> in which the provider finds no hand; the same with a provider that throws.\<close>

definition env_idle :: env where
  "env_idle =
     \<lparr>element =
        (\<lambda>v. \<lparr>readyState = 0, videoWidth = 0, videoHeight = 0, currentTime = 0\<rparr>),
      detectForVideo = Inr None\<rparr>"

definition env_frame :: "real \<Rightarrow> env" where
  "env_frame t =
     \<lparr>element =
        (\<lambda>v. \<lparr>readyState = 4, videoWidth = 640, videoHeight = 480, currentTime = t\<rparr>),
      detectForVideo = Inr None\<rparr>"

definition env_failing :: "real \<Rightarrow> env" where
  "env_failing t =
     \<lparr>element =
        (\<lambda>v. \<lparr>readyState = 4, videoWidth = 640, videoHeight = 480, currentTime = t\<rparr>),
      detectForVideo = Inl DetectionError\<rparr>"

text \<open>A service that was initialized and started once on a video that is not ready yet,
  and the same service after its first accepted frame.\<close>

definition started_world :: world where
  "started_world = start 0 env_idle (initialize new_world)"

definition processed_world :: world where
  "processed_world = loop (env_frame (1/2)) started_world"

subsection \<open>Application\<close>

definition sample_file :: "string \<Rightarrow> File_src" where
  "sample_file i =
     \<lparr>uuidv4 = i, createObjectURL = ''blob:'' @ i, random_h = 1/2, random_theta = 0,
      random_sx = 1/2, random_sy = 1/2, random_sz = 1/2,
      random_rx = 0, random_ry = 0, random_rz = 0\<rparr>"

definition three_photos :: "PhotoData list" where
  "three_photos = map make_photo [sample_file ''a'', sample_file ''b'', sample_file ''c'']"

definition fist_state :: GestureState where
  "fist_state =
     \<lparr>isHandDetected = True, gesture = Closed_Fist, handPosition = \<lparr>px = 1/2, py = 1/2\<rparr>\<rparr>"

definition pinch_state :: GestureState where
  "pinch_state =
     \<lparr>isHandDetected = True, gesture = Pinch, handPosition = \<lparr>px = 1/2, py = 1/2\<rparr>\<rparr>"

definition idle_state :: GestureState where
  "idle_state =
     \<lparr>isHandDetected = True, gesture = NoGesture, handPosition = \<lparr>px = 1/2, py = 1/2\<rparr>\<rparr>"

text \<open>Tree mode with three photos and nothing selected.\<close>

definition zoom_ready :: App where
  "zoom_ready = initial_App\<lparr>photos := three_photos\<rparr>"

definition sample_events :: "app_event list" where
  "sample_events =
     [Upload (Some [sample_file ''a'', sample_file ''b'', sample_file ''c'']) 0,
      NewGesture pinch_state (1/2)]"

section \<open>Properties of the double arithmetic\<close>

lemma round_even_error: "\<bar>of_int (round_even y) - y\<bar> \<le> 1/2"
  unfolding round_even_def Let_def by (auto; linarith)


lemma round_even_eqI:
  assumes "of_int m - 1/2 < y" "y < of_int m + 1/2"
  shows "round_even y = m"
proof -
  have "\<bar>of_int (round_even y) - y\<bar> \<le> 1/2" by (rule round_even_error)
  with assms have "\<bar>real_of_int (round_even y) - of_int m\<bar> < 1" by linarith
  then have "\<bar>real_of_int (round_even y - m)\<bar> < 1" by simp
  then have "\<bar>round_even y - m\<bar> < 1" by linarith
  then show ?thesis by simp
qed


lemma rnd_0: "rnd 0 = 0"
  by (simp add: rnd_def)



lemma expo_eq:
  assumes "2 powr of_int a \<le> \<bar>x\<bar>" "\<bar>x\<bar> < 2 powr of_int (a + 1)"
  shows "expo x = a"
proof -
  have pos: "0 < \<bar>x\<bar>" using assms(1) by (smt (verit) powr_gt_zero)
  have "of_int a \<le> log 2 \<bar>x\<bar>"
    using assms(1) pos by (simp add: le_log_iff)
  moreover have "log 2 \<bar>x\<bar> < of_int (a + 1)"
    using assms(2) pos by (simp add: log_less_iff)
  ultimately show ?thesis
    unfolding expo_def by (simp add: floor_eq_iff)
qed

text \<open>Rounding a number whose binary exponent is known: scale it to 53 bits before the
  point, round to an integer, scale back.\<close>

lemma rnd_at:
  assumes "k \<le> 1074" "2 ^ 52 \<le> x * 2 ^ k" "x * 2 ^ k < 2 ^ 53"
  shows "rnd x = of_int (round_even (x * 2 ^ k)) / 2 ^ k"
proof -
  have xpos: "0 < x"
    using assms(2) by (smt (verit) mult_nonpos_nonneg zero_le_power zero_less_power)
  have p: "(2::real) powr of_int (52 - int k) * 2 ^ k = 2 ^ 52"
    by (simp add: powr_diff powr_realpow)
  have q: "(2::real) powr of_int (52 - int k + 1) * 2 ^ k = 2 ^ 53"
    by (simp add: powr_diff powr_add powr_realpow)
  have "2 powr of_int (52 - int k) * 2 ^ k \<le> x * 2 ^ k"
    using assms(2) p by simp
  then have lo: "2 powr of_int (52 - int k) \<le> \<bar>x\<bar>"
    using xpos by simp
  have "x * 2 ^ k < 2 powr of_int (52 - int k + 1) * 2 ^ k"
    using assms(3) q by simp
  then have hi: "\<bar>x\<bar> < 2 powr of_int (52 - int k + 1)"
    using xpos by simp
  have e: "expo x = 52 - int k"
    using lo hi by (rule expo_eq)
  have "quantum x = 2 powr of_int (- int k)"
    using assms(1) by (simp add: quantum_def e)
  then have qk: "quantum x = 1 / 2 ^ k"
    by (simp add: powr_minus powr_realpow inverse_eq_divide)
  show ?thesis
    using xpos by (simp add: rnd_def qk)
qed

lemma rnd_1: "rnd 1 = 1"
  using rnd_at [of 52 1] by (simp add: round_even_def)

lemma rnd_fifth: "rnd (1/5) = d02"
  using rnd_at [of 55 "1/5"] by (simp add: round_even_def d02_def)

lemma rnd_2_25: "rnd (2/25) = d008"
  using rnd_at [of 56 "2/25"] by (simp add: round_even_def d008_def)

lemma rnd_1_21: "rnd (1/21) = d_1_21"
  using rnd_at [of 57 "1/21"] by (simp add: round_even_def d_1_21_def)


lemma rnd_edge_sub: "rnd (d02 - tiny) = d02"
  using rnd_at [of 55 "d02 - tiny"] by (simp add: round_even_def d02_def tiny_def)

lemma rnd_edge_sq: "rnd (d02 * d02) = d02sq"
  using rnd_at [of 57 "d02 * d02"] by (simp add: round_even_def d02_def d02sq_def)

lemma rnd_d02sq: "rnd d02sq = d02sq"
  using rnd_at [of 57 d02sq] by (simp add: round_even_def d02sq_def)

lemma sqrt_d02sq_bounds:
  "(7205759403792794 - 1/2) / 2 ^ 55 < sqrt d02sq \<and> sqrt d02sq < (7205759403792794 + 1/2) / 2 ^ 55"
proof
  show "(7205759403792794 - 1/2) / 2 ^ 55 < sqrt d02sq"
    by (rule real_less_rsqrt) (simp add: d02sq_def power2_eq_square)
  show "sqrt d02sq < (7205759403792794 + 1/2) / 2 ^ 55"
    by (rule real_less_lsqrt) (simp_all add: d02sq_def power2_eq_square)
qed

lemma rnd_edge_sqrt: "rnd (sqrt d02sq) = d02"
proof -
  have b: "7205759403792794 - 1/2 < sqrt d02sq * 2 ^ 55" "sqrt d02sq * 2 ^ 55 < 7205759403792794 + 1/2"
    using sqrt_d02sq_bounds by (simp_all add: pos_divide_less_eq pos_less_divide_eq)
  have "round_even (sqrt d02sq * 2 ^ 55) = 7205759403792794"
    using b by (intro round_even_eqI) simp_all
  moreover have "2 ^ 52 \<le> sqrt d02sq * 2 ^ 55" "sqrt d02sq * 2 ^ 55 < 2 ^ 53"
    using b by simp_all
  ultimately show ?thesis
    using rnd_at [of 55 "sqrt d02sq"] by (simp add: d02_def)
qed





lemma flit_ieee: "flit ieee c = rnd c"
  by (simp add: ieee_def)


section \<open>Properties of the classifier\<close>

lemma sums_fold:
  "fold (\<lambda>l (xSum, ySum). (xSum + lx l, ySum + ly l)) ls (a, b) =
     (a + sum_list (map lx ls), b + sum_list (map ly ls))"
  by (induction ls arbitrary: a b) simp_all

lemma sums_eq: "coord_sums ls = (sum_list (map lx ls), sum_list (map ly ls))"
  by (simp add: coord_sums_def sums_fold)

lemma dist_elem_at:
  "i < length h \<Longrightarrow> j < length h \<Longrightarrow> dist_pts (elem_at h i) (elem_at h j) = Inr (euclid (h ! i) (h ! j))"
  by (simp add: dist_pts_def elem_at_def euclid_def)

lemma dist_lt_at:
  "i < length h \<Longrightarrow> j < length h \<Longrightarrow>
     dist_lt (elem_at h i) (elem_at h j) c = Inr (euclid (h ! i) (h ! j) < c)"
  by (simp add: dist_lt_def dist_elem_at bind_r_def)

lemma dist_gt_at:
  "i < length h \<Longrightarrow> j < length h \<Longrightarrow>
     dist_gt (elem_at h i) (elem_at h j) c = Inr (euclid (h ! i) (h ! j) > c)"
  by (simp add: dist_gt_def dist_elem_at bind_r_def)

lemma andalso_Inr: "andalso (Inr a) (Inr b) = Inr (a \<and> b)"
  by (simp add: andalso_def bind_r_def)

lemma processDetections_hand:
  assumes "length h = 21"
  shows "processDetections (Some (h # rest)) = Inr (classify (Some h))"
  using assms
  by (simp add: processDetections_def sums_eq dist_elem_at dist_lt_at dist_gt_at andalso_Inr
      bind_r_def classify_def spec_gesture_def spec_fist_def spec_pinch_def spec_open_def
      mean_def)

lemma sqrt_lt_iff: "0 < c \<Longrightarrow> sqrt x < c \<longleftrightarrow> x < c\<^sup>2"
  by (metis real_sqrt_less_iff real_sqrt_abs abs_of_pos)

lemma sqrt_gt_iff: "0 \<le> c \<Longrightarrow> c < sqrt x \<longleftrightarrow> c\<^sup>2 < x"
  by (metis real_sqrt_less_iff real_sqrt_abs abs_of_nonneg)

lemma euclid_lt_fist: "euclid p q < 0.20 \<longleftrightarrow> sqd p q < 0.04"
  using sqrt_lt_iff [of "0.2" "sqd p q"] by (simp add: euclid_def sqd_def power2_eq_square)

lemma euclid_lt_pinch: "euclid p q < 0.08 \<longleftrightarrow> sqd p q < 0.0064"
  using sqrt_lt_iff [of "0.08" "sqd p q"] by (simp add: euclid_def sqd_def power2_eq_square)

lemma euclid_gt_open: "euclid p q > 0.30 \<longleftrightarrow> sqd p q > 0.09"
  using sqrt_gt_iff [of "0.3" "sqd p q"] by (simp add: euclid_def sqd_def power2_eq_square)

lemma spec_fist_sqd:
  "spec_fist h \<longleftrightarrow> sqd (h ! 8) (h ! 0) < 0.04 \<and> sqd (h ! 12) (h ! 0) < 0.04 \<and>
     sqd (h ! 16) (h ! 0) < 0.04 \<and> sqd (h ! 20) (h ! 0) < 0.04"
  unfolding spec_fist_def euclid_lt_fist ..

lemma spec_pinch_sqd: "spec_pinch h \<longleftrightarrow> sqd (h ! 4) (h ! 8) < 0.0064"
  unfolding spec_pinch_def euclid_lt_pinch ..

lemma spec_open_sqd:
  "spec_open h \<longleftrightarrow> sqd (h ! 8) (h ! 0) > 0.09 \<and> sqd (h ! 12) (h ! 0) > 0.09 \<and>
     sqd (h ! 16) (h ! 0) > 0.09 \<and> sqd (h ! 20) (h ! 0) > 0.09"
  unfolding spec_open_def euclid_gt_open ..

lemma sums_fp_fold:
  "fold (\<lambda>l (xSum, ySum). (fadd ar xSum (lx l), fadd ar ySum (ly l))) ls (a, b) =
     (foldl (fadd ar) a (map lx ls), foldl (fadd ar) b (map ly ls))"
  by (induction ls arbitrary: a b) simp_all

lemma coord_sums_fp_eq:
  "coord_sums_fp ar ls = (foldl (fadd ar) 0 (map lx ls), foldl (fadd ar) 0 (map ly ls))"
  by (simp add: coord_sums_fp_def sums_fp_fold)

lemma dist_fp_at:
  "i < length h \<Longrightarrow> j < length h \<Longrightarrow>
     dist_fp ar (elem_at h i) (elem_at h j) = Inr (euclid_fp ar (h ! i) (h ! j))"
  by (simp add: dist_fp_def elem_at_def euclid_fp_def)

lemma dist_lt_fp_at:
  "i < length h \<Longrightarrow> j < length h \<Longrightarrow>
     dist_lt_fp ar (elem_at h i) (elem_at h j) c = Inr (euclid_fp ar (h ! i) (h ! j) < c)"
  by (simp add: dist_lt_fp_def dist_fp_at bind_r_def)

lemma dist_gt_fp_at:
  "i < length h \<Longrightarrow> j < length h \<Longrightarrow>
     dist_gt_fp ar (elem_at h i) (elem_at h j) c = Inr (euclid_fp ar (h ! i) (h ! j) > c)"
  by (simp add: dist_gt_fp_def dist_fp_at bind_r_def)

lemma processDetections_fp_hand:
  assumes "length h = 21"
  shows "processDetections_fp ar (Some (h # rest)) = Inr (classify_fp ar (Some h))"
  using assms
  by (simp add: processDetections_fp_def coord_sums_fp_eq dist_fp_at dist_lt_fp_at
      dist_gt_fp_at andalso_Inr bind_r_def classify_fp_def gesture_fp_def fist_fp_def
      pinch_fp_def open_fp_def mean_fp_def)

text \<open>With the exact arithmetic the explicit form is the plain one.\<close>

lemma foldl_plus: "foldl (+) a vs = a + sum_list (vs::real list)"
  by (induction vs arbitrary: a) simp_all

lemma processDetections_fp_exact: "processDetections_fp exact result = processDetections result"
proof -
  have d: "dist_fp exact p q = dist_pts p q" for p q
    by (simp add: dist_fp_def dist_pts_def exact_def split: option.splits)
  have s: "coord_sums_fp exact ls = coord_sums ls" for ls
    by (simp add: coord_sums_fp_def coord_sums_def exact_def)
  have lt: "dist_lt_fp exact p q c = dist_lt p q c" for p q c
    by (simp add: dist_lt_fp_def dist_lt_def d)
  have gt: "dist_gt_fp exact p q c = dist_gt p q c" for p q c
    by (simp add: dist_gt_fp_def dist_gt_def d)
  have l: "flit exact c = c" "fdiv exact a b = a / b" "fsub exact a b = a - b" for a b c
    by (simp_all add: exact_def)
  show ?thesis
    unfolding processDetections_fp_def processDetections_def d s lt gt l ..
qed


lemma edge_tip_wrist: "euclid_fp ieee \<lparr>lx = d02, ly = 1/2\<rparr> \<lparr>lx = tiny, ly = 1/2\<rparr> = d02"
  by (simp add: euclid_fp_def ieee_def rnd_edge_sub rnd_edge_sq rnd_d02sq rnd_edge_sqrt rnd_0)

lemma edge_tip_tip: "euclid_fp ieee \<lparr>lx = d02, ly = 1/2\<rparr> \<lparr>lx = d02, ly = 1/2\<rparr> = 0"
  by (simp add: euclid_fp_def ieee_def rnd_0)

lemma edge_pose_fp: "gesture_fp ieee edge_pose = Pinch"
  by (simp add: gesture_fp_def fist_fp_def pinch_fp_def edge_pose_def edge_tip_wrist edge_tip_tip
      flit_ieee rnd_fifth rnd_2_25) (simp add: d008_def)

lemma edge_pose_exact: "spec_gesture edge_pose = Closed_Fist"
  by (simp add: spec_gesture_def spec_fist_sqd sqd_def edge_pose_def d02_def tiny_def
      power2_eq_square)

lemma mean_pose_fp:
  "classify_fp ieee (Some mean_pose) =
     \<lparr>isHandDetected = True, gesture = Closed_Fist, handPosition = \<lparr>px = 1, py = d_1_21\<rparr>\<rparr>"
  by (simp add: classify_fp_def gesture_fp_def fist_fp_def mean_fp_def euclid_fp_def mean_pose_def
      ieee_def rnd_0 rnd_1 rnd_fifth rnd_1_21) (simp add: d02_def)

lemma mean_pose_exact:
  "classify (Some mean_pose) =
     \<lparr>isHandDetected = True, gesture = Closed_Fist, handPosition = \<lparr>px = 1, py = 1/21\<rparr>\<rparr>"
  by (simp add: classify_def spec_gesture_def spec_fist_sqd sqd_def mean_def mean_pose_def)

text \<open>
  C1, as stated, fails: the code computes in doubles, not in exact arithmetic. For the
  pose \<open>mean_pose\<close> the mean of the y coordinates is 1/21, and the code publishes the
  double nearest to it, which is another number. For the pose \<open>edge_pose\<close> every
  fingertip is nearer than 0.20 to the wrist, so the stated rules give Closed_Fist; the
  code computes the distance as the double nearest to 0.2, finds it not less than the
  literal \<open>0.2\<close>, and publishes Pinch.
\<close>

theorem C1_classifier_counterexample:
  "length mean_pose = 21 \<and>
   processDetections_fp ieee (Some [mean_pose]) =
     Inr \<lparr>isHandDetected = True, gesture = Closed_Fist, handPosition = \<lparr>px = 1, py = d_1_21\<rparr>\<rparr> \<and>
   classify (Some mean_pose) =
     \<lparr>isHandDetected = True, gesture = Closed_Fist, handPosition = \<lparr>px = 1, py = 1/21\<rparr>\<rparr> \<and>
   d_1_21 \<noteq> 1/21 \<and>
   length edge_pose = 21 \<and>
   map_sum id gesture (processDetections_fp ieee (Some [edge_pose])) = Inr Pinch \<and>
   gesture (classify (Some edge_pose)) = Closed_Fist"
proof -
  have l: "length mean_pose = 21" "length edge_pose = 21"
    by (simp_all add: mean_pose_def edge_pose_def)
  have "d_1_21 \<noteq> 1/21"
    by (simp add: d_1_21_def)
  then show ?thesis
    using l processDetections_fp_hand [OF l(1), of ieee "[]"]
      processDetections_fp_hand [OF l(2), of ieee "[]"]
    by (simp add: mean_pose_fp mean_pose_exact edge_pose_exact)
      (simp add: classify_fp_def classify_def edge_pose_fp edge_pose_exact)
qed

text \<open>
  C1, amended. With no hand pose (\<open>landmarks\<close> missing or empty) the classifier
  publishes exactly \<open>{isHandDetected: false, gesture: None, handPosition: {0.5, 0.5}}\<close>.
  For a pose of 21 landmarks it publishes \<open>isHandDetected = true\<close>, the hand position
  \<open>(1 - cx, cy)\<close> and the gesture of the first rule that matches, in the order
  Closed_Fist (index, middle, ring and pinky tip all nearer than 0.20 to the wrist), Pinch
  (thumb tip nearer than 0.08 to the index tip), Open_Palm (all four farther than 0.30
  from the wrist), None; where every number is computed in the arithmetic of the code:
  \<open>(cx, cy)\<close> is the sum of the 21 coordinates, accumulated in index order from 0,
  divided by 21; a distance is \<open>Math.sqrt(Math.pow(dx, 2) + Math.pow(dy, 2))\<close>; the
  thresholds are the doubles the literals denote. The statement holds for every
  arithmetic \<open>ar\<close>, so in particular for \<open>ieee\<close>; the right-hand sides are
  \<open>classify_fp\<close>, which is written from these words.
\<close>

theorem C1_classifier_fp:
  "processDetections_fp ar None = Inr (classify_fp ar None) \<and>
   processDetections_fp ar (Some []) = Inr (classify_fp ar None) \<and>
   (length h = 21 \<longrightarrow>
      processDetections_fp ar (Some (h # rest)) = Inr (classify_fp ar (Some h)))"
  by (simp add: processDetections_fp_hand)
    (simp add: processDetections_fp_def no_hand_def classify_fp_def)

theorem C1_classifier_fp_witness:
  "length mean_pose = 21 \<and>
   processDetections_fp ieee (Some [mean_pose]) =
     Inr \<lparr>isHandDetected = True, gesture = Closed_Fist, handPosition = \<lparr>px = 1, py = d_1_21\<rparr>\<rparr>"
  using C1_classifier_fp [of ieee mean_pose "[]"]
  by (simp add: mean_pose_fp) (simp add: mean_pose_def)





lemma processDetections_detected:
  assumes "processDetections result = Inr g" "gesture g \<noteq> NoGesture"
  shows "isHandDetected g"
proof (cases result)
  case None
  then show ?thesis using assms by (auto simp: processDetections_def no_hand_def)
next
  case (Some hands)
  show ?thesis
  proof (cases hands)
    case Nil
    then show ?thesis using assms Some by (auto simp: processDetections_def no_hand_def)
  next
    case (Cons h rest)
    then show ?thesis using assms(1) Some
      by (auto simp: processDetections_def bind_r_def Let_def split: sum.splits prod.splits)
  qed
qed

lemma open_pose_classified:
  "processDetections (Some [open_pose]) = Inr (classify (Some open_pose)) \<and>
   gesture (classify (Some open_pose)) = Open_Palm"
  by (simp add: processDetections_hand open_pose_def)
    (simp add: open_pose_def classify_def spec_gesture_def spec_fist_sqd spec_pinch_sqd
      spec_open_sqd sqd_def power2_eq_square)

section \<open>Properties of the gesture service\<close>

lemma try_detect_fields [simp]:
  "service (try_detect e w) = service w"
  "pending (try_detect e w) = pending w"
  "nextHandle (try_detect e w) = nextHandle w"
  "detectCalls (try_detect e w) = Suc (detectCalls w)"
  by (simp_all add: try_detect_def console_warn_def Let_def split: sum.splits)

lemma try_detect_classify: "classifyCalls (try_detect e w) \<le> Suc (classifyCalls w)"
  by (simp add: try_detect_def console_warn_def Let_def split: sum.splits)

lemma try_detect_throw:
  "detectForVideo e = Inl err \<Longrightarrow>
     warnings (try_detect e w) = Suc (warnings w) \<and> published (try_detect e w) = published w \<and>
     classifyCalls (try_detect e w) = classifyCalls w"
  by (simp add: try_detect_def console_warn_def)

lemma loop_schedule [simp]:
  "pending (loop e w) = pending w @ [nextHandle w]"
  "nextHandle (loop e w) = Suc (nextHandle w)"
  "requestRef (service (loop e w)) = Some (nextHandle w)"
  "video (service (loop e w)) = video (service w)"
  "handLandmarker (service (loop e w)) = handLandmarker (service w)"
  by (simp_all add: loop_def requestAnimationFrame_def Let_def split: option.splits)

lemma loop_skipped:
  assumes "\<not> accepted e w"
  shows "lastVideoTime (service (loop e w)) = lastVideoTime (service w)"
    "detectCalls (loop e w) = detectCalls w"
    "classifyCalls (loop e w) = classifyCalls w"
    "published (loop e w) = published w"
    "warnings (loop e w) = warnings w"
  using assms
  by (auto simp: loop_def accepted_def requestAnimationFrame_def Let_def split: option.splits)

lemma loop_accepted:
  assumes "accepted e w" "video (service w) = Some v"
  shows "lastVideoTime (service (loop e w)) = currentTime (element e v)"
    "detectCalls (loop e w) = Suc (detectCalls w)"
    "classifyCalls (loop e w) \<le> Suc (classifyCalls w)"
  using assms
    try_detect_classify
      [of e "w\<lparr>service := (service w)\<lparr>lastVideoTime := currentTime (element e v)\<rparr>\<rparr>"]
  by (auto simp: loop_def accepted_def requestAnimationFrame_def Let_def split: option.splits)

lemma loop_accepted_throw:
  assumes "accepted e w" "detectForVideo e = Inl err"
  shows "warnings (loop e w) = Suc (warnings w)" "published (loop e w) = published w"
    "classifyCalls (loop e w) = classifyCalls w"
  using assms
  by (auto simp: loop_def accepted_def requestAnimationFrame_def Let_def try_detect_throw
      split: option.splits)

lemma started_world_eq:
  "started_world =
     \<lparr>service =
        \<lparr>handLandmarker = True, video = Some 0, lastVideoTime = - 1, requestRef = Some 1\<rparr>,
      pending = [1], nextHandle = 2, published = [], detectCalls = 0, classifyCalls = 0,
      warnings = 0\<rparr>"
  by (simp add: started_world_def start_def initialize_def new_world_def new_GestureService_def
      loop_def env_idle_def requestAnimationFrame_def)

lemma loop_frame_started:
  "loop (env_frame (1/2)) started_world =
     \<lparr>service =
        \<lparr>handLandmarker = True, video = Some 0, lastVideoTime = 1/2, requestRef = Some 2\<rparr>,
      pending = [1, 2], nextHandle = 3, published = [no_hand], detectCalls = 1,
      classifyCalls = 1, warnings = 0\<rparr>"
  by (simp add: started_world_eq loop_def env_frame_def requestAnimationFrame_def try_detect_def
      processDetections_def)

text \<open>
  C7. Frame dedup. On a tick of the loop where the video's playback time equals the
  last-processed time, or its ready state is below 2, or its width or height is zero,
  the service calls neither the landmark provider nor the classifier, and publishes
  nothing. Consequently two consecutive ticks that see the same playback time make at
  most one provider call and at most one classification call together.
\<close>

theorem C7_frame_dedup:
  assumes "video (service w) = Some v"
  shows "(currentTime (element e v) = lastVideoTime (service w) \<or>
          readyState (element e v) < 2 \<or> videoWidth (element e v) = 0 \<or>
          videoHeight (element e v) = 0 \<longrightarrow>
            detectCalls (loop e w) = detectCalls w \<and>
            classifyCalls (loop e w) = classifyCalls w \<and>
            published (loop e w) = published w) \<and>
         (currentTime (element e1 v) = currentTime (element e2 v) \<longrightarrow>
            detectCalls (loop e2 (loop e1 w)) \<le> Suc (detectCalls w) \<and>
            classifyCalls (loop e2 (loop e1 w)) \<le> Suc (classifyCalls w))"
proof (intro conjI impI)
  assume skip: "currentTime (element e v) = lastVideoTime (service w) \<or>
          readyState (element e v) < 2 \<or> videoWidth (element e v) = 0 \<or>
          videoHeight (element e v) = 0"
  then have na: "\<not> accepted e w"
    using assms by (auto simp: accepted_def)
  show "detectCalls (loop e w) = detectCalls w" "classifyCalls (loop e w) = classifyCalls w"
    "published (loop e w) = published w"
    using na by (simp_all add: loop_skipped)
next
  assume same: "currentTime (element e1 v) = currentTime (element e2 v)"
  have v1: "video (service (loop e1 w)) = Some v"
    using assms by simp
  have both: "detectCalls (loop e2 (loop e1 w)) \<le> Suc (detectCalls w) \<and>
            classifyCalls (loop e2 (loop e1 w)) \<le> Suc (classifyCalls w)"
  proof (cases "accepted e1 w")
    case True
    then have "lastVideoTime (service (loop e1 w)) = currentTime (element e2 v)"
      using loop_accepted(1) [OF True assms] same by simp
    then have "\<not> accepted e2 (loop e1 w)"
      using v1 by (simp add: accepted_def)
    then show ?thesis
      using loop_accepted(2,3) [OF True assms] by (simp add: loop_skipped)
  next
    case False
    then have eq: "detectCalls (loop e1 w) = detectCalls w" "classifyCalls (loop e1 w) = classifyCalls w"
      by (simp_all add: loop_skipped)
    show ?thesis
    proof (cases "accepted e2 (loop e1 w)")
      case True
      then show ?thesis
        using loop_accepted(2,3) [OF True v1] eq by simp
    next
      case False
      then show ?thesis
        using eq by (simp add: loop_skipped)
    qed
  qed
  then show "detectCalls (loop e2 (loop e1 w)) \<le> Suc (detectCalls w)"
    "classifyCalls (loop e2 (loop e1 w)) \<le> Suc (classifyCalls w)"
    by simp_all
qed

theorem C7_frame_dedup_witness:
  "video (service (loop (env_frame (1/2)) started_world)) = Some 0 \<and>
   currentTime (element (env_frame (1/2)) 0) =
     lastVideoTime (service (loop (env_frame (1/2)) started_world)) \<and>
   detectCalls (loop (env_frame (1/2)) started_world) = 1 \<and>
   detectCalls (loop (env_frame (1/2)) (loop (env_frame (1/2)) started_world)) = 1 \<and>
   detectCalls
     (loop (env_frame (1/2)) (loop (env_frame (1/2)) (loop (env_frame (1/2)) started_world)))
     \<le> 2"
  using C7_frame_dedup [of "loop (env_frame (1/2)) started_world" 0
      "env_frame (1/2)" "env_frame (1/2)" "env_frame (1/2)"]
  by (simp add: loop_frame_started) (simp add: env_frame_def)

text \<open>
  C8. If the landmark provider throws on an accepted frame, the tick logs one warning,
  calls the registered callback zero times (nothing is published and the classifier is
  not run), and still requests the next animation frame, whose handle it stores in
  \<open>requestRef\<close>.
\<close>

theorem C8_inference_failure:
  assumes "accepted e w" and "detectForVideo e = Inl err"
  shows "warnings (loop e w) = Suc (warnings w) \<and>
         published (loop e w) = published w \<and>
         classifyCalls (loop e w) = classifyCalls w \<and>
         pending (loop e w) = pending w @ [nextHandle w] \<and>
         requestRef (service (loop e w)) = Some (nextHandle w)"
  using assms by (simp add: loop_accepted_throw)

theorem C8_inference_failure_witness:
  "accepted (env_failing (1/2)) started_world \<and>
   detectForVideo (env_failing (1/2)) = Inl DetectionError \<and>
   warnings (loop (env_failing (1/2)) started_world) = 1 \<and>
   published (loop (env_failing (1/2)) started_world) = [] \<and>
   pending (loop (env_failing (1/2)) started_world) = [1, 2]"
  using C8_inference_failure [of "env_failing (1/2)" started_world DetectionError]
  by (simp add: started_world_eq accepted_def env_failing_def)

lemma stop_fields [simp]:
  "service (stop w) = service w" "published (stop w) = published w"
  "nextHandle (stop w) = nextHandle w" "detectCalls (stop w) = detectCalls w"
  "classifyCalls (stop w) = classifyCalls w"
  by (simp_all add: stop_def cancelAnimationFrame_def split: option.splits)

lemma initialize_fields [simp]:
  "pending (initialize w) = pending w" "published (initialize w) = published w"
  "nextHandle (initialize w) = nextHandle w" "requestRef (service (initialize w)) = requestRef (service w)"
  "lastVideoTime (service (initialize w)) = lastVideoTime (service w)"
  "video (service (initialize w)) = video (service w)"
  by (simp_all add: initialize_def)

lemma animationFrame_idle: "pending w = [] \<Longrightarrow> animationFrame e w = w"
  by (simp add: animationFrame_def)

lemma animationFrame_one: "pending w = [h] \<Longrightarrow> animationFrame e w = loop e (w\<lparr>pending := []\<rparr>)"
  by (simp add: animationFrame_def)

lemma stop_idle: "pending w = [] \<Longrightarrow> pending (stop w) = []"
  by (simp add: stop_def cancelAnimationFrame_def split: option.splits)

lemma single_loop_stop: "single_loop w \<Longrightarrow> pending (stop w) = []"
  by (auto simp: single_loop_def stop_def cancelAnimationFrame_def split: list.splits option.splits)

lemma single_loop_step:
  assumes "single_loop w" "\<not> is_Start ev"
  shows "single_loop (step ev w)"
proof (cases ev)
  case Initialize
  then show ?thesis using assms by (simp add: single_loop_def split: list.splits)
next
  case (Start v e)
  then show ?thesis using assms by simp
next
  case Stop
  then show ?thesis using assms single_loop_stop [OF assms(1)] by (simp add: single_loop_def)
next
  case (AnimationFrame e)
  show ?thesis
  proof (cases "pending w")
    case Nil
    then show ?thesis using assms AnimationFrame by (simp add: animationFrame_idle)
  next
    case (Cons h hs)
    then have "pending w = [h]" using assms(1) by (simp add: single_loop_def split: list.splits)
    then show ?thesis using assms AnimationFrame
      by (simp add: animationFrame_one single_loop_def)
  qed
qed

lemma single_loop_run:
  "single_loop w \<Longrightarrow> \<not> list_ex is_Start evs \<Longrightarrow> single_loop (run evs w)"
  unfolding run_def by (induction evs arbitrary: w) (simp_all add: single_loop_step)

lemma single_loop_start:
  "pending w = [] \<Longrightarrow> 0 < nextHandle w \<Longrightarrow> single_loop (start v e w)"
  by (simp add: single_loop_def start_def)

lemma idle_step:
  assumes "pending w = []" "\<not> is_Start ev"
  shows "pending (step ev w) = [] \<and> published (step ev w) = published w"
  using assms by (cases ev) (simp_all add: stop_idle animationFrame_idle)

lemma idle_run:
  "pending w = [] \<Longrightarrow> \<not> list_ex is_Start evs \<Longrightarrow>
     pending (run evs w) = [] \<and> published (run evs w) = published w"
  unfolding run_def
proof (induction evs arbitrary: w)
  case Nil
  then show ?case by simp
next
  case (Cons ev evs)
  then have "pending (step ev w) = [] \<and> published (step ev w) = published w"
    by (simp add: idle_step)
  with Cons show ?case by simp
qed

lemma run_append: "run (xs @ ys) w = run ys (run xs w)"
  by (simp add: run_def)

lemma run_Cons: "run (x # xs) w = run xs (step x w)"
  by (simp add: run_def)

text \<open>
  C9, as stated, fails: \<open>stop\<close> cancels only the request whose handle is in
  \<open>requestRef\<close>. After \<open>start\<close> has been called twice, two loop callbacks are
  pending; \<open>stop\<close> cancels the later one, the earlier one runs at the next animation
  frame and publishes a state, although \<open>start\<close> was not called again.
\<close>

theorem C9_stop_counterexample:
  "published (run [Initialize, Start 0 env_idle, Start 0 env_idle, Stop] new_world) = [] \<and>
   pending (run [Initialize, Start 0 env_idle, Start 0 env_idle, Stop] new_world) = [1] \<and>
   published
     (run [Initialize, Start 0 env_idle, Start 0 env_idle, Stop,
           AnimationFrame (env_frame (1/2))] new_world)
     = [no_hand]"
  by (simp add: run_def start_def stop_def initialize_def new_world_def new_GestureService_def
      loop_def env_idle_def env_frame_def requestAnimationFrame_def cancelAnimationFrame_def
      animationFrame_def try_detect_def processDetections_def)

text \<open>
  C9, amended. Take a service with no loop callback pending (newly constructed, or
  stopped), start it once, let any updates other than \<open>start\<close> happen, and call
  \<open>stop\<close> between two animation frames. Then no loop callback is pending any more, and
  whatever happens afterwards, as long as \<open>start\<close> is not called again, no further
  state is published: the list of \<open>onResult\<close> calls stays what it was when
  \<open>stop\<close> was called.
\<close>

theorem C9_stop_amended:
  assumes "pending w = []" and "0 < nextHandle w"
    and "\<not> list_ex is_Start between" and "\<not> list_ex is_Start later"
  shows "pending (run (Start v e # between @ [Stop]) w) = [] \<and>
         published (run later (run (Start v e # between @ [Stop]) w)) =
           published (run (Start v e # between) w)"
proof -
  let ?w1 = "run between (start v e w)"
  have "single_loop ?w1"
    using assms by (simp add: single_loop_start single_loop_run)
  then have idle: "pending (stop ?w1) = []"
    by (rule single_loop_stop)
  have eq: "run (Start v e # between @ [Stop]) w = stop ?w1"
    by (simp add: run_def)
  have "published (run later (stop ?w1)) = published (stop ?w1)"
    using idle_run [OF idle assms(4)] by simp
  then show ?thesis
    using idle eq by (simp add: run_Cons)
qed

theorem C9_stop_amended_witness:
  "pending (initialize new_world) = [] \<and> 0 < nextHandle (initialize new_world) \<and>
   \<not> list_ex is_Start [AnimationFrame (env_frame (1/2))] \<and>
   \<not> list_ex is_Start [AnimationFrame (env_frame 1), Stop, AnimationFrame (env_frame 2)] \<and>
   published (run [Start 0 env_idle, AnimationFrame (env_frame (1/2))] (initialize new_world)) = [no_hand] \<and>
   published (run [AnimationFrame (env_frame 1), Stop, AnimationFrame (env_frame 2)]
               (run [Start 0 env_idle, AnimationFrame (env_frame (1/2)), Stop] (initialize new_world)))
     = [no_hand]"
  using C9_stop_amended [of "initialize new_world" "[AnimationFrame (env_frame (1/2))]"
      "[AnimationFrame (env_frame 1), Stop, AnimationFrame (env_frame 2)]" 0 env_idle]
  by (simp add: run_def start_def stop_def initialize_def new_world_def new_GestureService_def
      loop_def env_idle_def env_frame_def requestAnimationFrame_def cancelAnimationFrame_def
      animationFrame_def try_detect_def processDetections_def)

lemma loop_quiet:
  assumes "video (service w) = Some v" "quiet_for v (lastVideoTime (service w)) e"
  shows "video (service (loop e w)) = Some v \<and>
         lastVideoTime (service (loop e w)) = lastVideoTime (service w) \<and>
         detectCalls (loop e w) = detectCalls w \<and> classifyCalls (loop e w) = classifyCalls w \<and>
         published (loop e w) = published w"
proof -
  have "\<not> accepted e w"
    using assms by (auto simp: accepted_def quiet_for_def frame_ready_def)
  then show ?thesis using assms(1) by (simp add: loop_skipped)
qed

lemma fold_loop_quiet:
  assumes "video (service w) = Some v" "quiet_for v (lastVideoTime (service w)) e"
  shows "video (service (fold (\<lambda>h. loop e) hs w)) = Some v \<and>
         lastVideoTime (service (fold (\<lambda>h. loop e) hs w)) = lastVideoTime (service w) \<and>
         detectCalls (fold (\<lambda>h. loop e) hs w) = detectCalls w \<and>
         classifyCalls (fold (\<lambda>h. loop e) hs w) = classifyCalls w \<and>
         published (fold (\<lambda>h. loop e) hs w) = published w"
  using assms
proof (induction hs arbitrary: w)
  case Nil
  then show ?case by simp
next
  case (Cons h hs)
  have step: "video (service (loop e w)) = Some v \<and>
         lastVideoTime (service (loop e w)) = lastVideoTime (service w) \<and>
         detectCalls (loop e w) = detectCalls w \<and> classifyCalls (loop e w) = classifyCalls w \<and>
         published (loop e w) = published w"
    using Cons.prems by (rule loop_quiet)
  then have "quiet_for v (lastVideoTime (service (loop e w))) e"
    using Cons.prems(2) by simp
  with step Cons.IH [of "loop e w"] show ?case by simp
qed

lemma animationFrame_quiet:
  assumes "video (service w) = Some v" "quiet_for v (lastVideoTime (service w)) e"
  shows "video (service (animationFrame e w)) = Some v \<and>
         lastVideoTime (service (animationFrame e w)) = lastVideoTime (service w) \<and>
         detectCalls (animationFrame e w) = detectCalls w \<and>
         classifyCalls (animationFrame e w) = classifyCalls w \<and>
         published (animationFrame e w) = published w"
  using fold_loop_quiet [of "w\<lparr>pending := []\<rparr>" v e "pending w"] assms
  by (simp add: animationFrame_def)

lemma frames_quiet:
  assumes "video (service w) = Some v" "\<forall>e\<in>set es. quiet_for v (lastVideoTime (service w)) e"
  shows "lastVideoTime (service (run (map AnimationFrame es) w)) = lastVideoTime (service w) \<and>
         detectCalls (run (map AnimationFrame es) w) = detectCalls w \<and>
         classifyCalls (run (map AnimationFrame es) w) = classifyCalls w \<and>
         published (run (map AnimationFrame es) w) = published w"
  using assms
proof (induction es arbitrary: w)
  case Nil
  then show ?case by (simp add: run_def)
next
  case (Cons e es)
  have q: "quiet_for v (lastVideoTime (service w)) e"
    using Cons.prems(2) by simp
  note st = animationFrame_quiet [OF Cons.prems(1) q]
  then have "\<forall>e'\<in>set es. quiet_for v (lastVideoTime (service (animationFrame e w))) e'"
    using Cons.prems(2) by simp
  with st Cons.IH [of "animationFrame e w"] show ?case
    by (simp add: run_Cons)
qed

text \<open>
  C10. \<open>stop\<close> leaves the last-processed video time unchanged, and \<open>start\<close> does not
  reset it: after \<open>start\<close> it is the old value unless the tick that \<open>start\<close> runs
  accepted a frame, the only place where it is written. So after \<open>stop\<close> and
  \<open>start\<close> on the same service, as long as every tick sees either no decoded frame or
  a frame whose playback time equals the time processed last before \<open>stop\<close>, such a
  frame is skipped: no provider call, no classification, nothing published, and the
  marker keeps its value.
\<close>

theorem C10_marker_survives_restart:
  "lastVideoTime (service (stop w)) = lastVideoTime (service w) \<and>
   lastVideoTime (service (start v e w)) =
     (if accepted e (w\<lparr>service := (service w)\<lparr>video := Some v\<rparr>\<rparr>)
      then currentTime (element e v) else lastVideoTime (service w)) \<and>
   ((\<forall>e'\<in>set (e # es). quiet_for v (lastVideoTime (service w)) e') \<longrightarrow>
      lastVideoTime (service (run (Stop # Start v e # map AnimationFrame es) w)) =
        lastVideoTime (service w) \<and>
      detectCalls (run (Stop # Start v e # map AnimationFrame es) w) = detectCalls w \<and>
      classifyCalls (run (Stop # Start v e # map AnimationFrame es) w) = classifyCalls w \<and>
      published (run (Stop # Start v e # map AnimationFrame es) w) = published w)"
proof (intro conjI impI)
  show "lastVideoTime (service (stop w)) = lastVideoTime (service w)"
    by simp
next
  let ?w = "w\<lparr>service := (service w)\<lparr>video := Some v\<rparr>\<rparr>"
  show "lastVideoTime (service (start v e w)) =
     (if accepted e ?w then currentTime (element e v) else lastVideoTime (service w))"
  proof (cases "accepted e ?w")
    case True
    then show ?thesis
      using loop_accepted(1) [of e ?w v] by (simp add: start_def)
  next
    case False
    then show ?thesis
      using loop_skipped(1) [of e ?w] by (simp add: start_def)
  qed
next
  assume q: "\<forall>e'\<in>set (e # es). quiet_for v (lastVideoTime (service w)) e'"
  let ?s = "(stop w)\<lparr>service := (service (stop w))\<lparr>video := Some v\<rparr>\<rparr>"
  have s1: "video (service ?s) = Some v" "lastVideoTime (service ?s) = lastVideoTime (service w)"
    "detectCalls ?s = detectCalls w" "classifyCalls ?s = classifyCalls w" "published ?s = published w"
    by simp_all
  have "quiet_for v (lastVideoTime (service ?s)) e"
    using q by simp
  from loop_quiet [OF s1(1) this]
  have s2: "video (service (start v e (stop w))) = Some v"
    "lastVideoTime (service (start v e (stop w))) = lastVideoTime (service w)"
    "detectCalls (start v e (stop w)) = detectCalls w"
    "classifyCalls (start v e (stop w)) = classifyCalls w"
    "published (start v e (stop w)) = published w"
    by (simp_all add: start_def)
  have "\<forall>e'\<in>set es. quiet_for v (lastVideoTime (service (start v e (stop w)))) e'"
    using q s2(2) by simp
  from frames_quiet [OF s2(1) this]
  have fin: "lastVideoTime (service (run (map AnimationFrame es) (start v e (stop w)))) =
           lastVideoTime (service w) \<and>
         detectCalls (run (map AnimationFrame es) (start v e (stop w))) = detectCalls w \<and>
         classifyCalls (run (map AnimationFrame es) (start v e (stop w))) = classifyCalls w \<and>
         published (run (map AnimationFrame es) (start v e (stop w))) = published w"
    using s2 by simp
  have eq: "run (Stop # Start v e # map AnimationFrame es) w =
      run (map AnimationFrame es) (start v e (stop w))"
    by (simp add: run_Cons)
  show "lastVideoTime (service (run (Stop # Start v e # map AnimationFrame es) w)) =
      lastVideoTime (service w)"
    "detectCalls (run (Stop # Start v e # map AnimationFrame es) w) = detectCalls w"
    "classifyCalls (run (Stop # Start v e # map AnimationFrame es) w) = classifyCalls w"
    "published (run (Stop # Start v e # map AnimationFrame es) w) = published w"
    using fin unfolding eq by simp_all
qed

theorem C10_marker_survives_restart_witness:
  "list_all (quiet_for 0 (lastVideoTime (service processed_world)))
     [env_frame (1/2), env_idle, env_frame (1/2)] \<and>
   frame_ready (element (env_frame (1/2)) 0) \<and>
   lastVideoTime (service processed_world) = 1/2 \<and>
   detectCalls processed_world = 1 \<and>
   detectCalls (run [Stop, Start 0 (env_frame (1/2)), AnimationFrame env_idle,
                     AnimationFrame (env_frame (1/2))] processed_world) = 1 \<and>
   published (run [Stop, Start 0 (env_frame (1/2)), AnimationFrame env_idle,
                     AnimationFrame (env_frame (1/2))] processed_world) = [no_hand]"
  using C10_marker_survives_restart [of processed_world 0 "env_frame (1/2)" "[env_idle, env_frame (1/2)]"]
  by (simp add: processed_world_def loop_frame_started quiet_for_def frame_ready_def)
    (simp add: env_frame_def env_idle_def)

section \<open>Properties of the mode state machine\<close>

text \<open>
  The effect runs again when it has changed the mode or the selection; that second run
  changes nothing, so one run per update is the whole transition.
\<close>

lemma gesture_effect_settled:
  "gesture_effect random s = Inr s' \<Longrightarrow> gesture_effect random' s' = Inr s'"
  by (auto simp: gesture_effect_def Let_def split: if_splits option.splits)

text \<open>
  C2. On a new gesture state, hand loss is checked first and the fist second: if no hand
  is detected and the mode is not Tree, or else if the gesture is Closed_Fist and the
  mode is not Tree, the mode becomes Tree and the selected photo is cleared; when the
  mode is Tree already, a lost hand or a fist changes nothing.
\<close>

theorem C2_revert_to_tree:
  "((\<not> isHandDetected g \<and> mode s \<noteq> TREE) \<or> (gesture g = Closed_Fist \<and> mode s \<noteq> TREE) \<longrightarrow>
      gesture_effect random (setGestureState g s) =
        Inr ((setGestureState g s)\<lparr>mode := TREE, selectedPhotoId := None\<rparr>)) \<and>
   ((\<not> isHandDetected g \<or> gesture g = Closed_Fist) \<and> mode s = TREE \<longrightarrow>
      gesture_effect random (setGestureState g s) = Inr (setGestureState g s))"
  by (auto simp: gesture_effect_def setGestureState_def)

theorem C2_revert_to_tree_witness:
  "gesture fist_state = Closed_Fist \<and>
   mode (initial_App\<lparr>mode := ZOOM, photos := three_photos, selectedPhotoId := Some ''b''\<rparr>) \<noteq> TREE \<and>
   gesture_effect 0 (setGestureState fist_state
       (initial_App\<lparr>mode := ZOOM, photos := three_photos, selectedPhotoId := Some ''b''\<rparr>)) =
     Inr \<lparr>mode = TREE, photos = three_photos, selectedPhotoId = None, gestureState = fist_state\<rparr> \<and>
   \<not> isHandDetected no_hand \<and> mode initial_App = TREE \<and>
   gesture_effect 0 (setGestureState no_hand initial_App) = Inr (setGestureState no_hand initial_App)"
  using C2_revert_to_tree [of fist_state
      "initial_App\<lparr>mode := ZOOM, photos := three_photos, selectedPhotoId := Some ''b''\<rparr>" 0]
    C2_revert_to_tree [of no_hand initial_App 0]
  by (simp add: fist_state_def initial_App_def setGestureState_def no_hand_def)

lemma random_index:
  assumes "0 \<le> random" "random < 1" "0 < n"
  shows "0 \<le> \<lfloor>random * real n\<rfloor> \<and> nat \<lfloor>random * real n\<rfloor> < n"
proof -
  have "0 \<le> random * real n" using assms by simp
  then have lo: "0 \<le> \<lfloor>random * real n\<rfloor>" by simp
  have "random * real n < real n" using assms by simp
  then have "\<lfloor>random * real n\<rfloor> < int n" by (simp add: floor_less_iff)
  with lo show ?thesis by linarith
qed

lemma gesture_effect_fp_exact: "gesture_effect_fp exact random s = gesture_effect random s"
  by (simp add: gesture_effect_fp_def gesture_effect_def exact_def)










text \<open>
  C4. A gesture state published by the classifier with gesture Open_Palm, arriving in
  mode Tree, makes the mode Scatter. A gesture state that matches none of the rules 1 to
  4 leaves mode and selection unchanged; in particular a detected hand with Open_Palm in
  mode Scatter or Zoom, and a detected hand with gesture None.
\<close>

theorem C4_open_palm_and_default:
  "(processDetections result = Inr g \<and> gesture g = Open_Palm \<and> mode s = TREE \<longrightarrow>
      gesture_effect random (setGestureState g s) = Inr ((setGestureState g s)\<lparr>mode := SCATTER\<rparr>)) \<and>
   (\<not> rule1 g s \<and> \<not> rule2 g s \<and> \<not> rule3 g s \<and> \<not> rule4 g s \<longrightarrow>
      gesture_effect random (setGestureState g s) = Inr (setGestureState g s)) \<and>
   (isHandDetected g \<and> gesture g = Open_Palm \<and> (mode s = SCATTER \<or> mode s = ZOOM) \<longrightarrow>
      gesture_effect random (setGestureState g s) = Inr (setGestureState g s)) \<and>
   (isHandDetected g \<and> gesture g = NoGesture \<longrightarrow>
      gesture_effect random (setGestureState g s) = Inr (setGestureState g s))"
proof (intro conjI impI)
  assume a: "processDetections result = Inr g \<and> gesture g = Open_Palm \<and> mode s = TREE"
  then have "isHandDetected g"
    by (auto intro: processDetections_detected)
  with a show "gesture_effect random (setGestureState g s) = Inr ((setGestureState g s)\<lparr>mode := SCATTER\<rparr>)"
    by (simp add: gesture_effect_def setGestureState_def)
next
  assume "\<not> rule1 g s \<and> \<not> rule2 g s \<and> \<not> rule3 g s \<and> \<not> rule4 g s"
  then show "gesture_effect random (setGestureState g s) = Inr (setGestureState g s)"
    by (auto simp: gesture_effect_def setGestureState_def rule1_def rule2_def rule3_def rule4_def)
next
  assume "isHandDetected g \<and> gesture g = Open_Palm \<and> (mode s = SCATTER \<or> mode s = ZOOM)"
  then show "gesture_effect random (setGestureState g s) = Inr (setGestureState g s)"
    by (auto simp: gesture_effect_def setGestureState_def)
next
  assume "isHandDetected g \<and> gesture g = NoGesture"
  then show "gesture_effect random (setGestureState g s) = Inr (setGestureState g s)"
    by (auto simp: gesture_effect_def setGestureState_def)
qed

theorem C4_open_palm_and_default_witness:
  "processDetections (Some [open_pose]) = Inr (classify (Some open_pose)) \<and>
   gesture (classify (Some open_pose)) = Open_Palm \<and> mode initial_App = TREE \<and>
   gesture_effect 0 (setGestureState (classify (Some open_pose)) initial_App) =
     Inr ((setGestureState (classify (Some open_pose)) initial_App)\<lparr>mode := SCATTER\<rparr>) \<and>
   isHandDetected (classify (Some open_pose)) \<and> mode (initial_App\<lparr>mode := SCATTER\<rparr>) = SCATTER \<and>
   gesture_effect 0 (setGestureState (classify (Some open_pose)) (initial_App\<lparr>mode := SCATTER\<rparr>)) =
     Inr (setGestureState (classify (Some open_pose)) (initial_App\<lparr>mode := SCATTER\<rparr>)) \<and>
   \<not> rule1 idle_state zoom_ready \<and> \<not> rule2 idle_state zoom_ready \<and>
   \<not> rule3 idle_state zoom_ready \<and> \<not> rule4 idle_state zoom_ready \<and>
   isHandDetected idle_state \<and> gesture idle_state = NoGesture \<and>
   gesture_effect 0 (setGestureState idle_state zoom_ready) = Inr (setGestureState idle_state zoom_ready)"
  using C4_open_palm_and_default [of "Some [open_pose]" "classify (Some open_pose)" initial_App 0]
    C4_open_palm_and_default [of "Some [open_pose]" "classify (Some open_pose)"
      "initial_App\<lparr>mode := SCATTER\<rparr>" 0]
    C4_open_palm_and_default [of None idle_state zoom_ready 0]
    open_pose_classified
  by (simp add: initial_App_def rule1_def rule2_def rule3_def rule4_def idle_state_def
      zoom_ready_def classify_def)

lemma app_inv_setGestureState: "app_inv (setGestureState g s) = app_inv s"
  by (simp add: app_inv_def setGestureState_def split: option.splits)

lemma app_inv_handleFileUpload: "app_inv s \<Longrightarrow> app_inv (handleFileUpload files s)"
  by (auto simp: app_inv_def handleFileUpload_def split: option.splits)

lemma app_inv_gesture_effect:
  assumes "app_inv s" "0 \<le> random" "random < 1"
  shows "\<exists>s'. gesture_effect random s = Inr s' \<and> app_inv s'"
proof (cases "isHandDetected (gestureState s) \<and> gesture (gestureState s) = Pinch \<and>
    mode s \<noteq> ZOOM \<and> 0 < length (photos s)")
  case True
  then have none: "selectedPhotoId s = None"
    using assms(1) by (auto simp: app_inv_def split: option.splits)
  have idx: "0 \<le> \<lfloor>random * real (length (photos s))\<rfloor>"
    "nat \<lfloor>random * real (length (photos s))\<rfloor> < length (photos s)"
    using random_index [OF assms(2,3)] True by simp_all
  then have "gesture_effect random s =
      Inr (s\<lparr>mode := ZOOM, selectedPhotoId :=
             Some (photoId (photos s ! nat \<lfloor>random * real (length (photos s))\<rfloor>))\<rparr>)"
    using True none by (simp add: gesture_effect_def falsy_def elem_at_int_def elem_at_def)
  moreover have "app_inv (s\<lparr>mode := ZOOM, selectedPhotoId :=
             Some (photoId (photos s ! nat \<lfloor>random * real (length (photos s))\<rfloor>))\<rparr>)"
    using idx(2) by (simp add: app_inv_def)
  ultimately show ?thesis by simp
next
  case False
  then show ?thesis
    using assms(1)
    by (auto simp: gesture_effect_def app_inv_def split: option.splits)
qed

lemma app_inv_step:
  assumes "app_inv s" "0 \<le> event_random ev" "event_random ev < 1"
  shows "\<exists>s'. app_step ev s = Inr s' \<and> app_inv s'"
proof (cases ev)
  case (NewGesture g r)
  then show ?thesis
    using assms app_inv_gesture_effect [of "setGestureState g s" r]
    by (simp add: app_inv_setGestureState)
next
  case (Upload files r)
  then show ?thesis
    using assms app_inv_gesture_effect [of "handleFileUpload files s" r]
    by (simp add: app_inv_handleFileUpload)
qed

lemma app_inv_run:
  assumes "app_inv s" "\<forall>ev\<in>set evs. 0 \<le> event_random ev \<and> event_random ev < 1"
  shows "\<exists>s'. app_run evs s = Inr s' \<and> app_inv s'"
  using assms
proof (induction evs arbitrary: s)
  case Nil
  then show ?case by simp
next
  case (Cons ev evs)
  then obtain s1 where s1: "app_step ev s = Inr s1" "app_inv s1"
    using app_inv_step [of s ev] by auto
  with Cons.IH [of s1] Cons.prems(2) show ?case
    by (simp add: bind_r_def)
qed

text \<open>
  C5. The invariant "the selected photo reference is set only in mode Zoom, and then it is
  the id of a photo in the collection" holds initially, is preserved by every gesture
  update and every upload (an upload only appends photos), and so holds in every state
  the application reaches; none of these updates throws, given that \<open>Math.random()\<close>
  returns numbers in \<open>[0, 1)\<close>.
\<close>

theorem C5_selection_invariant:
  "app_inv initial_App \<and>
   (app_inv s \<and> 0 \<le> event_random ev \<and> event_random ev < 1 \<longrightarrow>
      (\<exists>s'. app_step ev s = Inr s' \<and> app_inv s')) \<and>
   (\<exists>new. photos (handleFileUpload files s) = photos s @ new) \<and>
   ((\<forall>ev\<in>set evs. 0 \<le> event_random ev \<and> event_random ev < 1) \<longrightarrow>
      (\<exists>s'. app_run evs initial_App = Inr s' \<and>
            (\<forall>i. selectedPhotoId s' = Some i \<longrightarrow>
                   mode s' = ZOOM \<and> (\<exists>p\<in>set (photos s'). photoId p = i))))"
proof (intro conjI impI)
  show init: "app_inv initial_App"
    by (simp add: app_inv_def initial_App_def)
  show "\<exists>new. photos (handleFileUpload files s) = photos s @ new"
    by (cases files) (simp_all add: handleFileUpload_def)
  {
    assume "app_inv s \<and> 0 \<le> event_random ev \<and> event_random ev < 1"
    then show "\<exists>s'. app_step ev s = Inr s' \<and> app_inv s'"
      by (simp add: app_inv_step)
  }
  {
    assume "\<forall>ev\<in>set evs. 0 \<le> event_random ev \<and> event_random ev < 1"
    then obtain s' where "app_run evs initial_App = Inr s'" "app_inv s'"
      using app_inv_run [OF init] by blast
    then show "\<exists>s'. app_run evs initial_App = Inr s' \<and>
            (\<forall>i. selectedPhotoId s' = Some i \<longrightarrow>
                   mode s' = ZOOM \<and> (\<exists>p\<in>set (photos s'). photoId p = i))"
      by (auto simp: app_inv_def)
  }
qed

theorem C5_selection_invariant_witness:
  "list_all (\<lambda>ev. 0 \<le> event_random ev \<and> event_random ev < 1) sample_events \<and>
   app_run sample_events initial_App =
     Inr \<lparr>mode = ZOOM, photos = three_photos, selectedPhotoId = Some ''b'',
          gestureState = pinch_state\<rparr> \<and>
   ''b'' \<in> set (map photoId three_photos) \<and>
   app_inv \<lparr>mode = ZOOM, photos = three_photos, selectedPhotoId = Some ''b'',
          gestureState = pinch_state\<rparr> \<and>
   (\<exists>s'. app_step (NewGesture fist_state 0)
           \<lparr>mode = ZOOM, photos = three_photos, selectedPhotoId = Some ''b'',
            gestureState = pinch_state\<rparr> = Inr s' \<and> app_inv s')"
proof -
  have run: "app_run sample_events initial_App =
     Inr \<lparr>mode = ZOOM, photos = three_photos, selectedPhotoId = Some ''b'',
          gestureState = pinch_state\<rparr>"
    by (simp add: sample_events_def initial_App_def bind_r_def gesture_effect_def
        handleFileUpload_def setGestureState_def pinch_state_def falsy_def elem_at_int_def
        elem_at_def three_photos_def make_photo_def sample_file_def)
  have inv: "app_inv \<lparr>mode = ZOOM, photos = three_photos, selectedPhotoId = Some ''b'',
          gestureState = pinch_state\<rparr>"
    by (simp add: app_inv_def three_photos_def make_photo_def sample_file_def)
  show ?thesis
    using C5_selection_invariant [of "\<lparr>mode = ZOOM, photos = three_photos,
        selectedPhotoId = Some ''b'', gestureState = pinch_state\<rparr>" "NewGesture fist_state 0"
        None sample_events] run inv
    by (simp add: sample_events_def three_photos_def make_photo_def sample_file_def)
qed

end
